theory Spec2Isabelle
  imports Complex_Main "HOL-Library.Multiset"
begin

unbundle bit_operations_syntax

section \<open>The drowsiness monitor of \<^verbatim>\<open>project.py\<close>\<close>

text \<open>
  The script reads frames from a camera, asks an external face detector and an external
  landmark predictor for the facial landmarks of every face, builds the two eye arrays
  from the landmarks 36..41 and 42..47, and plays an alarm when \<^verbatim>\<open>eyes_closed\<close> holds of
  both arrays. The external services (camera, detector, predictor, keyboard, audio) are
  modelled by their results, given as inputs, and by a log of the commands sent to them.

  Modelling choices:
  \<^item> pixel coordinates are \<^typ>\<open>int\<close> (dlib points hold integers; they stay far from the
    64-bit range of the numpy array);
  \<^item> \<^verbatim>\<open>np.linalg.norm\<close> is the real square root of the sum of the squares; on integer
    vectors of pixel size the comparison with 15 of the floating-point result agrees
    with the one of the real result, since 225 is a perfect square;
  \<^item> an exception is a value of type \<open>exn\<close>; an external call returns \<open>exn + 'a\<close>.
    Interrupts are taken at the external calls of the loop, where the script waits;
  \<^item> the initialisation (lines 7 to 11 and 18) lies before the \<^verbatim>\<open>try\<close> statement and is
    taken to have succeeded: the model starts with the music loaded and not playing.
\<close>

subsection \<open>Exceptions and external data\<close>

datatype exn = KeyboardInterrupt | IndexError | RuntimeError

text \<open>A dlib point, with its attributes \<^verbatim>\<open>.x\<close> and \<^verbatim>\<open>.y\<close>.\<close>

record point =
  pt_x :: int
  pt_y :: int

text \<open>
  The predictor's result (a \<^verbatim>\<open>full_object_detection\<close>): its parts, indexed from 0.
  \<^verbatim>\<open>part(idx)\<close> raises IndexError when \<open>idx\<close> is not below the number of parts.
\<close>

type_synonym landmarks = "point list"

definition part :: "landmarks \<Rightarrow> nat \<Rightarrow> exn + point" where
  "part lm idx = (if idx < length lm then Inr (lm ! idx) else Inl IndexError)"

text \<open>A numpy array of shape (n, 2): the list of its rows.\<close>

type_synonym ndarray = "(int \<times> int) list"

text \<open>Indexing an array by a non-negative literal: IndexError out of range.\<close>

definition getitem :: "ndarray \<Rightarrow> nat \<Rightarrow> exn + (int \<times> int)" where
  "getitem a i = (if i < length a then Inr (a ! i) else Inl IndexError)"

text \<open>Elementwise subtraction of two rows, and \<^verbatim>\<open>np.linalg.norm\<close> of a row.\<close>

definition vsub :: "int \<times> int \<Rightarrow> int \<times> int \<Rightarrow> int \<times> int" where
  "vsub a b = (fst a - fst b, snd a - snd b)"

definition linalg_norm :: "int \<times> int \<Rightarrow> real" where
  "linalg_norm v = sqrt (real_of_int (fst v) * real_of_int (fst v)
                       + real_of_int (snd v) * real_of_int (snd v))"

subsection \<open>\<^verbatim>\<open>eyes_closed\<close> (lines 13 to 16)\<close>

text \<open>
  \<^verbatim>\<open>
  def eyes_closed(eye_points):
      left_eye = eye_points[0]
      right_eye = eye_points[1]
      return np.linalg.norm(left_eye - right_eye) < 15
  \<close>
  \<open>closure_metric\<close> is the value of \<^verbatim>\<open>np.linalg.norm(left_eye - right_eye)\<close>,
  \<open>eyes_closed\<close> the value returned.
\<close>

definition closure_metric :: "ndarray \<Rightarrow> exn + real" where
  "closure_metric eye_points =
     (case getitem eye_points 0 of
        Inl e \<Rightarrow> Inl e
      | Inr left_eye \<Rightarrow>
          (case getitem eye_points 1 of
             Inl e \<Rightarrow> Inl e
           | Inr right_eye \<Rightarrow> Inr (linalg_norm (vsub left_eye right_eye))))"

definition eyes_closed :: "ndarray \<Rightarrow> exn + bool" where
  "eyes_closed eye_points =
     (case closure_metric eye_points of
        Inl e \<Rightarrow> Inl e
      | Inr d \<Rightarrow> Inr (d < 15))"

text \<open>
  The specification's closure score: the Euclidean distance between two points of the
  image plane.
\<close>

definition euclidean_distance :: "int \<times> int \<Rightarrow> int \<times> int \<Rightarrow> real" where
  "euclidean_distance p q =
     sqrt ((real_of_int (fst q) - real_of_int (fst p))\<^sup>2
         + (real_of_int (snd q) - real_of_int (snd p))\<^sup>2)"

text \<open>Moving a point of an eye array by an offset.\<close>

definition translate :: "int \<times> int \<Rightarrow> int \<times> int \<Rightarrow> int \<times> int" where
  "translate off p = (fst p + fst off, snd p + snd off)"

subsection \<open>The eye arrays of a face (lines 31 to 43)\<close>

text \<open>
  \<^verbatim>\<open>np.array([(landmarks.part(i).x, landmarks.part(i).y), ...])\<close>: the rows are built
  in the order of the indices; the first part that is out of range raises.
\<close>

fun eye_array :: "landmarks \<Rightarrow> nat list \<Rightarrow> exn + ndarray" where
  "eye_array lm [] = Inr []"
| "eye_array lm (i # js) =
     (case part lm i of
        Inl e \<Rightarrow> Inl e
      | Inr p \<Rightarrow>
          (case eye_array lm js of
             Inl e \<Rightarrow> Inl e
           | Inr rows \<Rightarrow> Inr ((pt_x p, pt_y p) # rows)))"

definition extract_eyes :: "landmarks \<Rightarrow> exn + (ndarray \<times> ndarray)" where
  "extract_eyes lm =
     (case eye_array lm [36, 37, 38, 39, 40, 41] of
        Inl e \<Rightarrow> Inl e
      | Inr left_eye \<Rightarrow>
          (case eye_array lm [42, 43, 44, 45, 46, 47] of
             Inl e \<Rightarrow> Inl e
           | Inr right_eye \<Rightarrow> Inr (left_eye, right_eye)))"

text \<open>
  The condition of line 45, \<^verbatim>\<open>eyes_closed(left_eye) and eyes_closed(right_eye)\<close>:
  the right operand is evaluated only when the left one is true.
\<close>

definition both_closed :: "ndarray \<Rightarrow> ndarray \<Rightarrow> exn + bool" where
  "both_closed left_eye right_eye =
     (case eyes_closed left_eye of
        Inl e \<Rightarrow> Inl e
      | Inr l \<Rightarrow> (if l then eyes_closed right_eye else Inr False))"

subsection \<open>State and commands\<close>

text \<open>
  The state of the audio engine (Sounding while the music plays; \<^verbatim>\<open>play(-1)\<close> loops
  for ever, so only a stop command or the end of the process silences it) and the log of
  the commands issued so far. \<open>Stop\<close> is \<^verbatim>\<open>pygame.mixer.music.stop()\<close>, a command of the
  audio engine that the script has no call of.
\<close>

datatype AlarmState = Silent | Sounding

datatype command = Print | Play | Stop | Imshow | Release | DestroyAllWindows

record state =
  alarm :: AlarmState
  log :: "command list"

definition init_state :: state where
  "init_state = \<lparr>alarm = Silent, log = []\<rparr>"

definition print_msg :: "state \<Rightarrow> state" where
  "print_msg st = st\<lparr>log := log st @ [Print]\<rparr>"

definition music_play :: "state \<Rightarrow> state" where
  "music_play st = st\<lparr>alarm := Sounding, log := log st @ [Play]\<rparr>"

definition imshow :: "state \<Rightarrow> state" where
  "imshow st = st\<lparr>log := log st @ [Imshow]\<rparr>"

definition cap_release :: "state \<Rightarrow> state" where
  "cap_release st = st\<lparr>log := log st @ [Release]\<rparr>"

definition destroyAllWindows :: "state \<Rightarrow> state" where
  "destroyAllWindows st = st\<lparr>log := log st @ [DestroyAllWindows]\<rparr>"

subsection \<open>The loop (lines 20 to 58)\<close>

text \<open>
  One face of a frame (lines 30 to 47), given the predictor's result for it:
  \<open>drowsiness_signal\<close> is the value of the condition of line 45 for the face's
  landmarks, \<open>process_face\<close> the body of the \<^verbatim>\<open>for\<close> loop. Its result is the state
  reached and the exception raised, if any.
\<close>

definition drowsiness_signal :: "landmarks \<Rightarrow> exn + bool" where
  "drowsiness_signal lm =
     (case extract_eyes lm of
        Inl e \<Rightarrow> Inl e
      | Inr (left_eye, right_eye) \<Rightarrow> both_closed left_eye right_eye)"

definition process_face :: "exn + landmarks \<Rightarrow> state \<Rightarrow> state \<times> exn option" where
  "process_face prediction st =
     (case prediction of
        Inl e \<Rightarrow> (st, Some e)
      | Inr lm \<Rightarrow>
          (case drowsiness_signal lm of
             Inl e \<Rightarrow> (st, Some e)
           | Inr c \<Rightarrow> (if c then (music_play (print_msg st), None) else (st, None))))"

text \<open>\<^verbatim>\<open>for face in faces\<close>: the faces in order, up to the first exception.\<close>

fun for_faces :: "(exn + landmarks) list \<Rightarrow> state \<Rightarrow> state \<times> exn option" where
  "for_faces [] st = (st, None)"
| "for_faces (f # fs) st =
     (case process_face f st of
        (st', Some e) \<Rightarrow> (st', Some e)
      | (st', None) \<Rightarrow> for_faces fs st')"

text \<open>
  What the outside world answers during one iteration: the flag returned by
  \<^verbatim>\<open>cap.read()\<close>, the faces returned by the detector, each with the predictor's result
  for it, and the key code returned by \<^verbatim>\<open>cv2.waitKey(1)\<close>. Each call may raise instead
  (an interrupt arrives while the call waits, or the service fails).
\<close>

record iteration =
  cap_read :: "exn + bool"
  detector :: "exn + (exn + landmarks) list"
  waitKey :: "exn + int"

datatype flow = Continue | Break | Raise exn

text \<open>Line 51, \<^verbatim>\<open>cv2.waitKey(1) & 0xFF == ord('q')\<close>: the code of \<^verbatim>\<open>q\<close> is 113.\<close>

definition quit_key :: "int \<Rightarrow> bool" where
  "quit_key k = (k AND 255 = 113)"

definition loop_body :: "iteration \<Rightarrow> state \<Rightarrow> state \<times> flow" where
  "loop_body inp st =
     (case cap_read inp of
        Inl e \<Rightarrow> (st, Raise e)
      | Inr ret \<Rightarrow>
          if \<not> ret then (st, Break)
          else
            (case detector inp of
               Inl e \<Rightarrow> (st, Raise e)
             | Inr faces \<Rightarrow>
                 (case for_faces faces st of
                    (st1, Some e) \<Rightarrow> (st1, Raise e)
                  | (st1, None) \<Rightarrow>
                      (case waitKey inp of
                         Inl e \<Rightarrow> (imshow st1, Raise e)
                       | Inr k \<Rightarrow>
                           if quit_key k then (imshow st1, Break)
                           else (imshow st1, Continue)))))"

text \<open>
  \<^verbatim>\<open>while True\<close> over the iterations observed so far. The flow \<open>Continue\<close> says that
  the loop has used up all of them and is still running.
\<close>

fun while_true :: "iteration list \<Rightarrow> state \<Rightarrow> state \<times> flow" where
  "while_true [] st = (st, Continue)"
| "while_true (inp # inps) st =
     (case loop_body inp st of
        (st', Continue) \<Rightarrow> while_true inps st'
      | (st', Break) \<Rightarrow> (st', Break)
      | (st', Raise e) \<Rightarrow> (st', Raise e))"

text \<open>The \<^verbatim>\<open>finally\<close> block (lines 56 to 58).\<close>

definition finally_block :: "state \<Rightarrow> state" where
  "finally_block st = destroyAllWindows (cap_release st)"

text \<open>
  The \<^verbatim>\<open>try\<close> statement: a KeyboardInterrupt is caught and passed, any other exception
  leaves the script after the \<^verbatim>\<open>finally\<close> block.
\<close>

datatype outcome = Running | Exited | Crashed exn

definition main :: "iteration list \<Rightarrow> state \<times> outcome" where
  "main inps =
     (case while_true inps init_state of
        (st, Continue) \<Rightarrow> (st, Running)
      | (st, Break) \<Rightarrow> (finally_block st, Exited)
      | (st, Raise e) \<Rightarrow>
          (if e = KeyboardInterrupt then (finally_block st, Exited)
           else (finally_block st, Crashed e)))"

subsection \<open>Inputs used in the examples\<close>

text \<open>
  Landmark sets: one with all 68 points at the origin (both eyes closed), one with 68
  points 20 pixels apart (both eyes open), one whose left eye is closed and whose right
  eye is open, one of 48 points and one of 40 points.
\<close>

definition closed_face :: landmarks where
  "closed_face = replicate 68 \<lparr>pt_x = 0, pt_y = 0\<rparr>"

definition open_face :: landmarks where
  "open_face = map (\<lambda>i. \<lparr>pt_x = 0, pt_y = 20 * int i\<rparr>) [0..<68]"

definition left_closed_face :: landmarks where
  "left_closed_face =
     map (\<lambda>i. \<lparr>pt_x = 0, pt_y = (if i < 42 then 0 else 20 * int i)\<rparr>) [0..<68]"

definition face48 :: landmarks where
  "face48 = replicate 48 \<lparr>pt_x = 0, pt_y = 0\<rparr>"

definition face40 :: landmarks where
  "face40 = replicate 40 \<lparr>pt_x = 0, pt_y = 0\<rparr>"

text \<open>
  A frame that is read, in which the detector finds the given faces and no key is
  pressed (\<^verbatim>\<open>waitKey\<close> returns -1).
\<close>

definition frame_of :: "(exn + landmarks) list \<Rightarrow> iteration" where
  "frame_of faces = \<lparr>cap_read = Inr True, detector = Inr faces, waitKey = Inr (- 1)\<rparr>"

text \<open>
  An iteration in which \<^verbatim>\<open>cap.read()\<close> returns no frame, one in which the detector
  raises, and one in which the key \<^verbatim>\<open>q\<close> is pressed.
\<close>

definition read_failure :: iteration where
  "read_failure = \<lparr>cap_read = Inr False, detector = Inr [], waitKey = Inr (- 1)\<rparr>"

definition detector_failure :: iteration where
  "detector_failure = \<lparr>cap_read = Inr True, detector = Inl RuntimeError, waitKey = Inr (- 1)\<rparr>"

definition quit_frame :: iteration where
  "quit_frame = \<lparr>cap_read = Inr True, detector = Inr [], waitKey = Inr 113\<rparr>"

section \<open>Properties\<close>

subsection \<open>The closure metric and the verdict of one eye\<close>

lemma sqrt_lt_15: "sqrt x < 15 \<longleftrightarrow> x < 225"
proof -
  have "sqrt 225 = sqrt (15\<^sup>2)" by simp
  also have "\<dots> = (15::real)" by simp
  finally have e: "sqrt 225 = 15" .
  have "sqrt x < sqrt 225 \<longleftrightarrow> x < 225" by (rule real_sqrt_less_iff)
  with e show ?thesis by simp
qed

lemma linalg_norm_vsub: "linalg_norm (vsub p q) = euclidean_distance p q"
  by (simp add: linalg_norm_def vsub_def euclidean_distance_def power2_eq_square algebra_simps)

lemma closure_metric_two:
  "closure_metric (p # q # rest) = Inr (euclidean_distance p q)"
  by (simp add: closure_metric_def getitem_def linalg_norm_vsub)

text \<open>
  The verdict as a comparison of integers: the squared distance of the first two rows
  against 225. This is the form in which the floating-point comparison of the script and
  the real comparison of the model agree.
\<close>

lemma eyes_closed_int:
  "eyes_closed (p # q # rest)
     = Inr ((fst q - fst p)\<^sup>2 + (snd q - snd p)\<^sup>2 < 225)"
proof -
  have "euclidean_distance p q
          = sqrt (real_of_int ((fst q - fst p)\<^sup>2 + (snd q - snd p)\<^sup>2))"
    by (simp add: euclidean_distance_def)
  moreover have "real_of_int n < 225 \<longleftrightarrow> n < 225" for n :: int
    by linarith
  ultimately show ?thesis
    by (simp only: eyes_closed_def closure_metric_two sum.case sqrt_lt_15)
qed

lemma closure_metric_short: "length a < 2 \<Longrightarrow> closure_metric a = Inl IndexError"
  by (cases a; cases "tl a") (auto simp add: closure_metric_def getitem_def)

lemma euclid_translate: "euclidean_distance (translate t p) (translate t q) = euclidean_distance p q"
  by (simp add: euclidean_distance_def translate_def)

lemma closure_translate: "closure_metric (map (translate t) a) = closure_metric a"
proof (cases a)
  case Nil then show ?thesis by simp
next
  case (Cons p a') 
  show ?thesis 
  proof (cases a')
    case Nil with Cons show ?thesis by (simp add: closure_metric_short)
  next
    case (Cons q r) with \<open>a = p # a'\<close> show ?thesis by (simp add: closure_metric_two euclid_translate)
  qed
qed

lemma two_or_more: "2 \<le> length a \<Longrightarrow> \<exists>p q rest. a = p # q # rest"
  by (cases a; cases "tl a") auto

lemma closure_metric_nth:
  assumes "2 \<le> length a"
  shows "closure_metric a = Inr (euclidean_distance (a ! 0) (a ! 1))"
proof -
  from assms obtain p q rest where "a = p # q # rest" using two_or_more by blast
  then show ?thesis by (simp add: closure_metric_two)
qed

lemma closure_metric_take:
  assumes "2 \<le> length a" "2 \<le> length b" "take 2 b = take 2 a"
  shows "closure_metric b = closure_metric a"
proof -
  from assms(1) obtain p q r where a: "a = p # q # r" using two_or_more by blast
  from assms(2) obtain p' q' r' where b: "b = p' # q' # r'" using two_or_more by blast
  from assms(3) a b have "p' = p" "q' = q" by (simp_all add: numeral_2_eq_2)
  with a b show ?thesis by (simp add: closure_metric_two)
qed

text \<open>
  Claim C5. For every eye contour of six points, the closure metric (the value that
  \<^verbatim>\<open>eyes_closed\<close> compares with 15) is the Euclidean distance between the first and the
  second point of the contour; a contour with the same first two points and a
  permutation of the points 3 to 6 has the same score; and the score of the contour
  [(0,0),(0,10),(1,9),(2,8),(2,1),(1,0)] is 10.
\<close>

theorem closure_metric_first_two:
  "length eye = 6 \<Longrightarrow>
     closure_metric eye = Inr (euclidean_distance (eye ! 0) (eye ! 1))
   \<and> (\<forall>eye'. length eye' = 6 \<and> take 2 eye' = take 2 eye
              \<and> mset (drop 2 eye') = mset (drop 2 eye)
          \<longrightarrow> closure_metric eye' = closure_metric eye)
   \<and> closure_metric [(0, 0), (0, 10), (1, 9), (2, 8), (2, 1), (1, 0)] = Inr 10"
proof (intro conjI allI impI)
  assume "length eye = 6"
  then show "closure_metric eye = Inr (euclidean_distance (eye ! 0) (eye ! 1))"
    by (simp add: closure_metric_nth)
next
  fix eye'
  assume "length eye = 6"
    and "length eye' = 6 \<and> take 2 eye' = take 2 eye \<and> mset (drop 2 eye') = mset (drop 2 eye)"
  then show "closure_metric eye' = closure_metric eye"
    by (simp add: closure_metric_take)
next
  show "closure_metric [(0, 0), (0, 10), (1, 9), (2, 8), (2, 1), (1, 0)] = Inr 10"
    by (simp add: closure_metric_two euclidean_distance_def)
qed

text \<open>
  The contour of scenario A, and the same contour with its last four points reversed.
\<close>

theorem closure_metric_first_two_witness:
  "length ([(0, 0), (0, 10), (1, 9), (2, 8), (2, 1), (1, 0)] :: ndarray) = 6
   \<and> closure_metric [(0, 0), (0, 10), (1, 9), (2, 8), (2, 1), (1, 0)]
       = Inr (euclidean_distance (0, 0) (0, 10))
   \<and> closure_metric [(0, 0), (0, 10), (1, 0), (2, 1), (2, 8), (1, 9)]
       = closure_metric [(0, 0), (0, 10), (1, 9), (2, 8), (2, 1), (1, 0)]
   \<and> closure_metric [(0, 0), (0, 10), (1, 9), (2, 8), (2, 1), (1, 0)] = Inr 10"
proof -
  let ?A = "[(0, 0), (0, 10), (1, 9), (2, 8), (2, 1), (1, 0)] :: ndarray"
  let ?B = "[(0, 0), (0, 10), (1, 0), (2, 1), (2, 8), (1, 9)] :: ndarray"
  have len: "length ?A = 6" by simp
  note th = closure_metric_first_two [OF len]
  have hyp: "length ?B = 6 \<and> take 2 ?B = take 2 ?A \<and> mset (drop 2 ?B) = mset (drop 2 ?A)"
    by (simp add: numeral_2_eq_2)
  from th hyp have perm: "closure_metric ?B = closure_metric ?A" by blast
  from th have "closure_metric ?A = Inr (euclidean_distance (?A ! 0) (?A ! 1))" by blast
  then have dist: "closure_metric ?A = Inr (euclidean_distance (0, 0) (0, 10))" by simp
  from th have ten: "closure_metric ?A = Inr 10" by blast
  from len dist perm ten show ?thesis by blast
qed

text \<open>
  Claim C6. For every closure score \<open>s\<close> of a contour, \<^verbatim>\<open>eyes_closed\<close> returns True (closed)
  if and only if \<open>s < 15\<close>, and False if and only if \<open>15 \<le> s\<close>; the contour of
  scenario B, whose first two points are (0,0) and (0,20), has score 20 and is not
  closed.
\<close>

theorem eyes_closed_threshold:
  "closure_metric eye = Inr s \<Longrightarrow>
     (eyes_closed eye = Inr True \<longleftrightarrow> s < 15)
   \<and> (eyes_closed eye = Inr False \<longleftrightarrow> 15 \<le> s)
   \<and> closure_metric [(0, 0), (0, 20), (2, 18), (4, 16), (4, 2), (2, 0)] = Inr 20
   \<and> eyes_closed [(0, 0), (0, 20), (2, 18), (4, 16), (4, 2), (2, 0)] = Inr False"
  by (auto simp add: eyes_closed_def closure_metric_two euclidean_distance_def)

text \<open>
  The contour of scenario A has score 10 and is closed.
\<close>

theorem eyes_closed_threshold_witness:
  "closure_metric [(0, 0), (0, 10), (1, 9), (2, 8), (2, 1), (1, 0)] = Inr 10
   \<and> eyes_closed [(0, 0), (0, 10), (1, 9), (2, 8), (2, 1), (1, 0)] = Inr True
   \<and> closure_metric [(0, 0), (0, 20), (2, 18), (4, 16), (4, 2), (2, 0)] = Inr 20
   \<and> eyes_closed [(0, 0), (0, 20), (2, 18), (4, 16), (4, 2), (2, 0)] = Inr False"
proof -
  have m: "closure_metric [(0, 0), (0, 10), (1, 9), (2, 8), (2, 1), (1, 0)] = Inr 10"
    by (simp add: closure_metric_two euclidean_distance_def)
  from eyes_closed_threshold [OF m] m show ?thesis by simp
qed

text \<open>
  Claim C10. Translating all the points of an eye contour by a fixed offset leaves the
  result of \<^verbatim>\<open>eyes_closed\<close> unchanged (also when the array is too short and the call
  raises).
\<close>

theorem eyes_closed_translate:
  "eyes_closed (map (translate off) eye) = eyes_closed eye"
  by (simp add: eyes_closed_def closure_translate)

text \<open>
  The contour of scenario A moved by (100, 50).
\<close>

theorem eyes_closed_translate_witness:
  "eyes_closed [(100, 50), (100, 60), (101, 59), (102, 58), (102, 51), (101, 50)]
     = eyes_closed [(0, 0), (0, 10), (1, 9), (2, 8), (2, 1), (1, 0)]"
  using eyes_closed_translate [of "(100, 50)" "[(0, 0), (0, 10), (1, 9), (2, 8), (2, 1), (1, 0)]"]
  by (simp add: translate_def)

subsection \<open>The eye contours and the signal of one face\<close>

lemma eye_array_ok:
  "\<forall>i \<in> set js. i < length lm \<Longrightarrow>
     eye_array lm js = Inr (map (\<lambda>i. (pt_x (lm ! i), pt_y (lm ! i))) js)"
  by (induction js) (simp_all add: part_def)

lemma eye_array_fail:
  "\<exists>i \<in> set js. length lm \<le> i \<Longrightarrow> eye_array lm js = Inl IndexError"
proof (induction js)
  case Nil
  then show ?case by simp
next
  case (Cons j js)
  show ?case
  proof (cases "j < length lm")
    case True
    with Cons.prems have "\<exists>i \<in> set js. length lm \<le> i" by auto
    from Cons.IH [OF this] True show ?thesis by (simp add: part_def)
  next
    case False
    then show ?thesis by (simp add: part_def)
  qed
qed

lemma extract_eyes_ok:
  assumes "48 \<le> length lm"
  shows "extract_eyes lm =
           Inr (map (\<lambda>i. (pt_x (lm ! i), pt_y (lm ! i))) [36, 37, 38, 39, 40, 41],
                map (\<lambda>i. (pt_x (lm ! i), pt_y (lm ! i))) [42, 43, 44, 45, 46, 47])"
proof -
  from assms have l: "\<forall>i \<in> set [36, 37, 38, 39, 40, 41]. i < length lm" by simp
  from assms have r: "\<forall>i \<in> set [42, 43, 44, 45, 46, 47]. i < length lm" by simp
  show ?thesis
    unfolding extract_eyes_def eye_array_ok [OF l] eye_array_ok [OF r] by simp
qed

lemma extract_eyes_fail:
  assumes "length lm < 48"
  shows "extract_eyes lm = Inl IndexError"
proof (cases "eye_array lm [36, 37, 38, 39, 40, 41]")
  case (Inl e)
  have "\<exists>i \<in> set [36, 37, 38, 39, 40, 41]. length lm \<le> i"
  proof (rule ccontr)
    assume "\<not> ?thesis"
    then have "\<forall>i \<in> set [36, 37, 38, 39, 40, 41]. i < length lm" by auto
    from eye_array_ok [OF this] Inl show False by simp
  qed
  from eye_array_fail [OF this] show ?thesis by (simp add: extract_eyes_def)
next
  case (Inr a)
  from assms have "\<exists>i \<in> set [42, 43, 44, 45, 46, 47]. length lm \<le> i" by simp
  from eye_array_fail [OF this] Inr show ?thesis by (simp add: extract_eyes_def)
qed

lemma extract_eyes_Inr_length:
  assumes "extract_eyes lm = Inr (a, b)"
  shows "48 \<le> length lm \<and> length a = 6 \<and> length b = 6"
proof -
  have len: "48 \<le> length lm"
  proof (rule ccontr)
    assume "\<not> ?thesis"
    then have "length lm < 48" by simp
    from extract_eyes_fail [OF this] assms show False by simp
  qed
  from extract_eyes_ok [OF len] assms len show ?thesis by auto
qed

lemma eyes_closed_total:
  "2 \<le> length a \<Longrightarrow> eyes_closed a = Inr (euclidean_distance (a ! 0) (a ! 1) < 15)"
  by (simp add: eyes_closed_def closure_metric_nth)

lemma upt_36: "[36..<42] = [36, 37, 38, 39, 40, 41]" by simp
lemma upt_42: "[42..<48] = [42, 43, 44, 45, 46, 47]" by simp

text \<open>
  Claim C8. For every landmark set of 68 points, the extraction returns the left-eye
  contour as the points at the indices 36 to 41 and the right-eye contour as the points
  at the indices 42 to 47, each in ascending order of the indices.
\<close>

theorem extract_eyes_indices:
  "length lm = 68 \<Longrightarrow>
     extract_eyes lm =
       Inr (map (\<lambda>i. (pt_x (lm ! i), pt_y (lm ! i))) [36..<42],
            map (\<lambda>i. (pt_x (lm ! i), pt_y (lm ! i))) [42..<48])"
  by (simp only: upt_36 upt_42) (simp add: extract_eyes_ok)

lemma open_face_eyes: "extract_eyes open_face =
   Inr ([(0, 720), (0, 740), (0, 760), (0, 780), (0, 800), (0, 820)],
        [(0, 840), (0, 860), (0, 880), (0, 900), (0, 920), (0, 940)])"
  by (simp add: extract_eyes_ok open_face_def)

text \<open>
  A landmark set of 68 points whose point \<open>i\<close> is \<open>(0, 20 * i)\<close>.
\<close>

theorem extract_eyes_indices_witness:
  "length open_face = 68 \<and>
   extract_eyes open_face =
     Inr ([(0, 720), (0, 740), (0, 760), (0, 780), (0, 800), (0, 820)],
          [(0, 840), (0, 860), (0, 880), (0, 900), (0, 920), (0, 940)])"
proof -
  have len: "length open_face = 68" by (simp add: open_face_def)
  from extract_eyes_indices [OF len] len show ?thesis
    by (simp add: upt_36 upt_42 open_face_def)
qed

text \<open>
  Claim C7. For the two contours of a face, both calls of \<^verbatim>\<open>eyes_closed\<close> return a
  verdict, the drowsiness signal of the face is the conjunction of the two verdicts
  (whatever the four combinations), and the alarm is started for the face exactly when
  the conjunction is true: with one eye closed and the other not, the state is
  unchanged.
\<close>

theorem both_eyes_conjunction:
  "extract_eyes lm = Inr (left_eye, right_eye) \<Longrightarrow>
     \<exists>l r. eyes_closed left_eye = Inr l \<and> eyes_closed right_eye = Inr r
        \<and> both_closed left_eye right_eye = Inr (l \<and> r)
        \<and> drowsiness_signal lm = Inr (l \<and> r)
        \<and> process_face (Inr lm) st
            = (if l \<and> r then music_play (print_msg st) else st, None)"
proof -
  assume ex: "extract_eyes lm = Inr (left_eye, right_eye)"
  then have "2 \<le> length left_eye" "2 \<le> length right_eye"
    using extract_eyes_Inr_length [OF ex] by simp_all
  then obtain l r where l: "eyes_closed left_eye = Inr l" and r: "eyes_closed right_eye = Inr r"
    using eyes_closed_total by blast
  have b: "both_closed left_eye right_eye = Inr (l \<and> r)"
    by (simp add: both_closed_def l r)
  with ex have d: "drowsiness_signal lm = Inr (l \<and> r)"
    by (simp add: drowsiness_signal_def)
  then have "process_face (Inr lm) st = (if l \<and> r then music_play (print_msg st) else st, None)"
    by (simp add: process_face_def)
  with l r b d show ?thesis by blast
qed

lemma left_closed_face_eyes: "extract_eyes left_closed_face =
   Inr ([(0, 0), (0, 0), (0, 0), (0, 0), (0, 0), (0, 0)],
        [(0, 840), (0, 860), (0, 880), (0, 900), (0, 920), (0, 940)])"
  by (simp add: extract_eyes_ok left_closed_face_def)

text \<open>
  Scenario C: a face whose left eye is closed and whose right eye is open.
\<close>

theorem both_eyes_conjunction_witness:
  "extract_eyes left_closed_face =
     Inr ([(0, 0), (0, 0), (0, 0), (0, 0), (0, 0), (0, 0)],
          [(0, 840), (0, 860), (0, 880), (0, 900), (0, 920), (0, 940)])
   \<and> eyes_closed [(0, 0), (0, 0), (0, 0), (0, 0), (0, 0), (0, 0)] = Inr True
   \<and> eyes_closed [(0, 840), (0, 860), (0, 880), (0, 900), (0, 920), (0, 940)] = Inr False
   \<and> drowsiness_signal left_closed_face = Inr False
   \<and> process_face (Inr left_closed_face) init_state = (init_state, None)"
proof -
  let ?L = "[(0, 0), (0, 0), (0, 0), (0, 0), (0, 0), (0, 0)] :: ndarray"
  let ?R = "[(0, 840), (0, 860), (0, 880), (0, 900), (0, 920), (0, 940)] :: ndarray"
  have l: "eyes_closed ?L = Inr True"
    by (simp add: eyes_closed_total euclidean_distance_def)
  have r: "eyes_closed ?R = Inr False"
    by (simp add: eyes_closed_total euclidean_distance_def)
  from both_eyes_conjunction [OF left_closed_face_eyes, of init_state] l r
  have "drowsiness_signal left_closed_face = Inr False"
    and "process_face (Inr left_closed_face) init_state = (init_state, None)"
    by auto
  with left_closed_face_eyes l r show ?thesis by blast
qed

subsection \<open>What the loop does to the state\<close>

lemma process_face_signal:
  "drowsiness_signal lm = Inr c \<Longrightarrow>
     process_face (Inr lm) st = (if c then music_play (print_msg st) else st, None)"
  by (simp add: process_face_def)

lemma process_face_alarm:
  "alarm st = Sounding \<Longrightarrow> alarm (fst (process_face p st)) = Sounding"
  by (simp add: process_face_def music_play_def print_msg_def split: sum.splits)

lemma process_face_count:
  "c \<noteq> Print \<Longrightarrow> c \<noteq> Play \<Longrightarrow>
     count_list (log (fst (process_face p st))) c = count_list (log st) c"
  by (simp add: process_face_def music_play_def print_msg_def split: sum.splits)

lemma for_faces_alarm:
  "alarm st = Sounding \<Longrightarrow> alarm (fst (for_faces fs st)) = Sounding"
proof (induction fs arbitrary: st)
  case Nil
  then show ?case by simp
next
  case (Cons f fs)
  obtain st' r where p: "process_face f st = (st', r)" by (cases "process_face f st")
  with process_face_alarm [OF Cons.prems, of f] have a: "alarm st' = Sounding" by simp
  show ?case
  proof (cases r)
    case None
    with p Cons.IH [OF a] show ?thesis by simp
  next
    case (Some e)
    with p a show ?thesis by simp
  qed
qed

lemma for_faces_count:
  "c \<noteq> Print \<Longrightarrow> c \<noteq> Play \<Longrightarrow>
     count_list (log (fst (for_faces fs st))) c = count_list (log st) c"
proof (induction fs arbitrary: st)
  case Nil
  then show ?case by simp
next
  case (Cons f fs)
  obtain st' r where p: "process_face f st = (st', r)" by (cases "process_face f st")
  with process_face_count [OF Cons.prems, of f st]
  have a: "count_list (log st') c = count_list (log st) c" by simp
  show ?case
  proof (cases r)
    case None
    with p a Cons.IH [OF Cons.prems, of st'] show ?thesis by simp
  next
    case (Some e)
    with p a show ?thesis by simp
  qed
qed

lemma for_faces_append:
  "for_faces fs1 st = (st1, None) \<Longrightarrow> for_faces (fs1 @ fs2) st = for_faces fs2 st1"
proof (induction fs1 arbitrary: st)
  case Nil
  then show ?case by simp
next
  case (Cons f fs1)
  obtain st' r where p: "process_face f st = (st', r)" by (cases "process_face f st")
  show ?case
  proof (cases r)
    case None
    with p Cons.prems have "for_faces fs1 st' = (st1, None)" by simp
    from Cons.IH [OF this] p None show ?thesis by simp
  next
    case (Some e)
    with p Cons.prems show ?thesis by simp
  qed
qed

lemma for_faces_no_signal:
  "\<forall>fc \<in> set faces. \<exists>lm. fc = Inr lm \<and> drowsiness_signal lm = Inr False \<Longrightarrow>
     for_faces faces st = (st, None)"
proof (induction faces)
  case Nil
  then show ?case by simp
next
  case (Cons f faces)
  then obtain lm where "f = Inr lm" "drowsiness_signal lm = Inr False" by auto
  then have "process_face f st = (st, None)" by (simp add: process_face_def)
  with Cons show ?case by simp
qed

lemma loop_body_alarm:
  "alarm st = Sounding \<Longrightarrow> alarm (fst (loop_body inp st)) = Sounding"
proof -
  assume a: "alarm st = Sounding"
  have "alarm (fst (for_faces fs st)) = Sounding" for fs
    by (rule for_faces_alarm [OF a])
  then have "for_faces fs st = (st1, r) \<Longrightarrow> alarm st1 = Sounding" for fs st1 r
    by (metis fst_conv)
  with a show ?thesis
    by (auto simp add: loop_body_def imshow_def split: sum.splits prod.splits option.splits)
qed

lemma loop_body_count:
  assumes "c \<noteq> Print" "c \<noteq> Play" "c \<noteq> Imshow"
  shows "count_list (log (fst (loop_body inp st))) c = count_list (log st) c"
proof -
  have "count_list (log (fst (for_faces fs st))) c = count_list (log st) c" for fs
    by (rule for_faces_count [OF assms(1,2)])
  then have "for_faces fs st = (st1, r) \<Longrightarrow> count_list (log st1) c = count_list (log st) c"
    for fs st1 r
    by (metis fst_conv)
  with assms(3) show ?thesis
    by (auto simp add: loop_body_def imshow_def split: sum.splits prod.splits option.splits)
qed

lemma while_true_alarm:
  "alarm st = Sounding \<Longrightarrow> alarm (fst (while_true inps st)) = Sounding"
proof (induction inps arbitrary: st)
  case Nil
  then show ?case by simp
next
  case (Cons inp inps)
  obtain st' fl where b: "loop_body inp st = (st', fl)" by (cases "loop_body inp st")
  with loop_body_alarm [OF Cons.prems, of inp] have a: "alarm st' = Sounding" by simp
  from b a Cons.IH [OF a] show ?case by (cases fl) simp_all
qed

lemma while_true_count:
  assumes "c \<noteq> Print" "c \<noteq> Play" "c \<noteq> Imshow"
  shows "count_list (log (fst (while_true inps st))) c = count_list (log st) c"
proof (induction inps arbitrary: st)
  case Nil
  then show ?case by simp
next
  case (Cons inp inps)
  obtain st' fl where b: "loop_body inp st = (st', fl)" by (cases "loop_body inp st")
  with loop_body_count [OF assms, of inp st]
  have a: "count_list (log st') c = count_list (log st) c" by simp
  from b a Cons.IH [of st'] show ?case by (cases fl) simp_all
qed

lemma while_true_append:
  "while_true pre st0 = (st, Continue) \<Longrightarrow> while_true (pre @ inps) st0 = while_true inps st"
proof (induction pre arbitrary: st0)
  case Nil
  then show ?case by simp
next
  case (Cons inp pre)
  obtain st' fl where b: "loop_body inp st0 = (st', fl)" by (cases "loop_body inp st0")
  show ?case
  proof (cases fl)
    case Continue
    with b Cons.prems have "while_true pre st' = (st, Continue)" by simp
    from Cons.IH [OF this] b Continue show ?thesis by simp
  next
    case Break
    with b Cons.prems show ?thesis by simp
  next
    case (Raise e)
    with b Cons.prems show ?thesis by simp
  qed
qed

lemma while_true_exit:
  assumes "while_true pre st0 = (st, Continue)" "loop_body f st = (st', fl)" "fl \<noteq> Continue"
  shows "while_true (pre @ f # rest) st0 = (st', fl)"
proof -
  from assms(2,3) have "while_true (f # rest) st = (st', fl)" by (cases fl) simp_all
  with while_true_append [OF assms(1)] show ?thesis by simp
qed

lemma main_exit:
  assumes "while_true pre init_state = (st, Continue)" "loop_body f st = (st', fl)"
    "fl \<noteq> Continue"
  shows "main (pre @ f # rest) =
           (finally_block st',
            if fl = Break \<or> fl = Raise KeyboardInterrupt then Exited
            else (case fl of Raise e \<Rightarrow> Crashed e | _ \<Rightarrow> Exited))"
  using while_true_exit [OF assms] assms(3) by (cases fl) (simp_all add: main_def)

lemma main_log:
  "snd (main inps) \<noteq> Running \<Longrightarrow>
     log (fst (main inps)) = log (fst (while_true inps init_state)) @ [Release, DestroyAllWindows]"
  by (cases "while_true inps init_state")
     (auto simp add: main_def finally_block_def cap_release_def destroyAllWindows_def
           split: flow.splits if_splits)

lemma main_alarm: "alarm (fst (main inps)) = alarm (fst (while_true inps init_state))"
  by (cases "while_true inps init_state")
     (auto simp add: main_def finally_block_def cap_release_def destroyAllWindows_def
           split: flow.splits if_splits)

lemma closed_face_signal: "drowsiness_signal closed_face = Inr True"
  by (simp add: drowsiness_signal_def extract_eyes_ok closed_face_def both_closed_def
      eyes_closed_total euclidean_distance_def)

lemma open_face_signal: "drowsiness_signal open_face = Inr False"
  by (simp add: drowsiness_signal_def open_face_eyes both_closed_def
      eyes_closed_total euclidean_distance_def)

lemma quit_key_examples: "\<not> quit_key (- 1)" "quit_key 113"
  by (simp_all add: quit_key_def)

subsection \<open>Frames without a drowsy face\<close>

text \<open>
  Claim C4. A frame that is read and in which no face has a true drowsiness signal (in
  particular a frame with no face) leaves the alarm state unchanged and issues no alarm
  command: the only command of the iteration is the display of the frame. Moreover no
  iteration and no run of the loop, whatever its signals, takes the alarm from Sounding
  to Silent.
\<close>

theorem no_signal_no_command:
  "cap_read f = Inr True \<Longrightarrow> detector f = Inr faces \<Longrightarrow>
   \<forall>fc \<in> set faces. \<exists>lm. fc = Inr lm \<and> drowsiness_signal lm = Inr False \<Longrightarrow>
     alarm (fst (loop_body f st)) = alarm st
   \<and> log (fst (loop_body f st)) = log st @ [Imshow]
   \<and> (\<forall>g inps. alarm st = Sounding \<longrightarrow>
          alarm (fst (loop_body g st)) = Sounding
        \<and> alarm (fst (while_true inps st)) = Sounding)"
proof (intro conjI allI impI)
  assume r: "cap_read f = Inr True" and d: "detector f = Inr faces"
    and n: "\<forall>fc \<in> set faces. \<exists>lm. fc = Inr lm \<and> drowsiness_signal lm = Inr False"
  from for_faces_no_signal [OF n] have ff: "for_faces faces st = (st, None)" .
  from r d ff have b: "fst (loop_body f st) = imshow st"
    by (simp add: loop_body_def split: sum.splits)
  show "alarm (fst (loop_body f st)) = alarm st" by (simp add: b imshow_def)
  show "log (fst (loop_body f st)) = log st @ [Imshow]" by (simp add: b imshow_def)
next
  fix g :: iteration and inps :: "iteration list"
  assume "alarm st = Sounding"
  then show "alarm (fst (loop_body g st)) = Sounding" by (rule loop_body_alarm)
next
  fix g :: iteration and inps :: "iteration list"
  assume "alarm st = Sounding"
  then show "alarm (fst (while_true inps st)) = Sounding" by (rule while_true_alarm)
qed

text \<open>
  A frame with no face and a frame with an open-eyed and a one-eyed face, while the alarm
  sounds; a frame with an open-eyed face while it is silent.
\<close>

theorem no_signal_no_command_witness:
  "loop_body (frame_of []) (music_play init_state)
     = (\<lparr>alarm = Sounding, log = [Play, Imshow]\<rparr>, Continue)
   \<and> loop_body (frame_of [Inr open_face, Inr left_closed_face]) (music_play init_state)
     = (\<lparr>alarm = Sounding, log = [Play, Imshow]\<rparr>, Continue)
   \<and> alarm (fst (loop_body (frame_of [Inr open_face]) init_state)) = Silent
   \<and> alarm (fst (while_true [frame_of [], frame_of [Inr open_face]] (music_play init_state)))
       = Sounding"
proof -
  let ?st = "music_play init_state"
  have s: "alarm ?st = Sounding" by (simp add: music_play_def)
  have lc: "drowsiness_signal left_closed_face = Inr False"
    by (simp add: drowsiness_signal_def left_closed_face_eyes both_closed_def
        eyes_closed_total euclidean_distance_def)
  have h0: "\<forall>fc \<in> set ([] :: (exn + landmarks) list).
              \<exists>lm. fc = Inr lm \<and> drowsiness_signal lm = Inr False" by simp
  have h2: "\<forall>fc \<in> set [Inr open_face, Inr left_closed_face].
              \<exists>lm. fc = Inr lm \<and> drowsiness_signal lm = Inr False"
    by (simp add: open_face_signal lc)
  have h1: "\<forall>fc \<in> set [Inr open_face].
              \<exists>lm. fc = Inr lm \<and> drowsiness_signal lm = Inr False"
    by (simp add: open_face_signal)
  have r: "cap_read (frame_of fs) = Inr True" and d: "detector (frame_of fs) = Inr fs" for fs
    by (simp_all add: frame_of_def)
  note t0 = no_signal_no_command [OF r d h0, of ?st]
  note t2 = no_signal_no_command [OF r d h2, of ?st]
  note t1 = no_signal_no_command [OF r d h1, of init_state]
  have fl: "snd (loop_body (frame_of fs) st) = Continue"
    if "for_faces fs st = (st, None)" for fs st
    using that by (simp add: loop_body_def frame_of_def quit_key_def)
  have a: "loop_body (frame_of []) ?st = (\<lparr>alarm = Sounding, log = [Play, Imshow]\<rparr>, Continue)"
  proof (rule prod_eqI)
    from t0 have "alarm (fst (loop_body (frame_of []) ?st)) = Sounding"
      and "log (fst (loop_body (frame_of []) ?st)) = [Play, Imshow]"
      by (simp_all add: music_play_def init_state_def)
    then show "fst (loop_body (frame_of []) ?st) = fst (\<lparr>alarm = Sounding, log = [Play, Imshow]\<rparr>, Continue)"
      by simp
    show "snd (loop_body (frame_of []) ?st) = snd (\<lparr>alarm = Sounding, log = [Play, Imshow]\<rparr>, Continue)"
      using fl [OF for_faces_no_signal [OF h0]] by simp
  qed
  have b: "loop_body (frame_of [Inr open_face, Inr left_closed_face]) ?st
             = (\<lparr>alarm = Sounding, log = [Play, Imshow]\<rparr>, Continue)"
  proof (rule prod_eqI)
    let ?f = "frame_of [Inr open_face, Inr left_closed_face]"
    from t2 have "alarm (fst (loop_body ?f ?st)) = Sounding"
      and "log (fst (loop_body ?f ?st)) = [Play, Imshow]"
      by (simp_all add: music_play_def init_state_def)
    then show "fst (loop_body ?f ?st) = fst (\<lparr>alarm = Sounding, log = [Play, Imshow]\<rparr>, Continue)"
      by simp
    show "snd (loop_body ?f ?st) = snd (\<lparr>alarm = Sounding, log = [Play, Imshow]\<rparr>, Continue)"
      using fl [OF for_faces_no_signal [OF h2]] by simp
  qed
  from t1 have c: "alarm (fst (loop_body (frame_of [Inr open_face]) init_state)) = Silent"
    by (simp add: init_state_def)
  from t0 s have e: "alarm (fst (while_true [frame_of [], frame_of [Inr open_face]] ?st)) = Sounding"
    by blast
  from a b c e show ?thesis by blast
qed

subsection \<open>The start command is issued for every drowsy face\<close>

lemma loop_body_one_drowsy:
  assumes "cap_read f = Inr True" "detector f = Inr [Inr lm]" "drowsiness_signal lm = Inr True"
  shows "fst (loop_body f st) = imshow (music_play (print_msg st))"
  using assms by (simp add: loop_body_def process_face_def split: sum.splits)

lemma loop_body_one_drowsy_flow:
  assumes "cap_read f = Inr True" "detector f = Inr [Inr lm]" "drowsiness_signal lm = Inr True"
    and "waitKey f = Inr k" "\<not> quit_key k"
  shows "snd (loop_body f st) = Continue"
  using assms by (simp add: loop_body_def process_face_def)

text \<open>
  Claim C1 says that two consecutive frames with a true drowsiness signal cause exactly
  one start command. The script keeps no alarm state and calls \<^verbatim>\<open>play(-1)\<close> for every
  face whose eyes are both closed: two such frames cause two start commands.
\<close>

theorem start_reissued_counterexample:
  "count_list (log (fst (main [frame_of [Inr closed_face], frame_of [Inr closed_face]]))) Play = 2
   \<and> count_list (log (fst (main [frame_of [Inr closed_face], frame_of [Inr closed_face]]))) Play
       \<noteq> 1
   \<and> drowsiness_signal closed_face = Inr True"
proof -
  let ?f = "frame_of [Inr closed_face]"
  have b: "loop_body ?f st = (imshow (music_play (print_msg st)), Continue)" for st
    by (simp add: loop_body_def frame_of_def process_face_def closed_face_signal
        quit_key_examples)
  have "main [?f, ?f]
          = (imshow (music_play (print_msg (imshow (music_play (print_msg init_state))))),
             Running)"
    by (simp add: main_def b)
  then have "log (fst (main [?f, ?f])) = [Print, Play, Imshow, Print, Play, Imshow]"
    by (simp add: imshow_def music_play_def print_msg_def init_state_def)
  then show ?thesis by (simp add: closed_face_signal)
qed

text \<open>
  Claim C1, amended. Two consecutive processed frames, each with one face whose
  drowsiness signal is true, cause exactly two start commands, one per frame: the start
  command is issued again for the second frame although the alarm is Sounding since the
  first.
\<close>

theorem start_reissued:
  assumes "cap_read f1 = Inr True" "detector f1 = Inr [Inr lm1]"
    and "drowsiness_signal lm1 = Inr True"
    and "waitKey f1 = Inr k" "\<not> quit_key k"
    and "cap_read f2 = Inr True" "detector f2 = Inr [Inr lm2]"
    and "drowsiness_signal lm2 = Inr True"
  shows "log (fst (while_true [f1, f2] st))
           = log st @ [Print, Play, Imshow, Print, Play, Imshow]
       \<and> count_list (log (fst (while_true [f1, f2] st))) Play = count_list (log st) Play + 2
       \<and> alarm (fst (loop_body f1 st)) = Sounding
       \<and> log (fst (loop_body f2 (fst (loop_body f1 st))))
           = log (fst (loop_body f1 st)) @ [Print, Play, Imshow]"
proof -
  let ?st1 = "imshow (music_play (print_msg st))"
  let ?st2 = "imshow (music_play (print_msg ?st1))"
  have b1: "loop_body f1 st = (?st1, Continue)"
    using loop_body_one_drowsy [OF assms(1,2,3), of st]
      loop_body_one_drowsy_flow [OF assms(1,2,3,4,5), of st]
    by (simp add: prod_eq_iff)
  obtain fl where b2: "loop_body f2 ?st1 = (?st2, fl)"
    using loop_body_one_drowsy [OF assms(6,7,8), of ?st1]
    by (cases "loop_body f2 ?st1") simp
  have w: "fst (while_true [f1, f2] st) = ?st2"
    using b1 b2 by (cases fl) simp_all
  have l: "log ?st2 = log st @ [Print, Play, Imshow, Print, Play, Imshow]"
    by (simp add: imshow_def music_play_def print_msg_def)
  have "log ?st2 = log ?st1 @ [Print, Play, Imshow]"
    by (simp add: imshow_def music_play_def print_msg_def)
  moreover have "alarm ?st1 = Sounding"
    by (simp add: imshow_def music_play_def print_msg_def)
  ultimately show ?thesis using w l b1 b2 by simp
qed

text \<open>
  Two frames with the face whose eyes are closed, from the initial state.
\<close>

theorem start_reissued_witness:
  "log (fst (while_true [frame_of [Inr closed_face], frame_of [Inr closed_face]] init_state))
     = [Print, Play, Imshow, Print, Play, Imshow]
   \<and> count_list
        (log (fst (while_true [frame_of [Inr closed_face], frame_of [Inr closed_face]]
                     init_state))) Play = 2
   \<and> alarm (fst (loop_body (frame_of [Inr closed_face]) init_state)) = Sounding"
proof -
  let ?f = "frame_of [Inr closed_face]"
  have r: "cap_read ?f = Inr True" and d: "detector ?f = Inr [Inr closed_face]"
    and k: "waitKey ?f = Inr (- 1)"
    by (simp_all add: frame_of_def)
  from start_reissued [OF r d closed_face_signal k quit_key_examples(1) r d closed_face_signal,
      of init_state]
  show ?thesis by (simp add: init_state_def)
qed

subsection \<open>Leaving the loop\<close>

lemma main_counts:
  assumes "snd (main inps) \<noteq> Running"
  shows "count_list (log (fst (main inps))) Release = 1"
    and "count_list (log (fst (main inps))) DestroyAllWindows = 1"
    and "count_list (log (fst (main inps))) Stop = 0"
proof -
  have z: "count_list (log (fst (while_true inps init_state))) c = 0"
    if "c \<noteq> Print" "c \<noteq> Play" "c \<noteq> Imshow" for c
    using while_true_count [OF that, of inps init_state] by (simp add: init_state_def)
  show "count_list (log (fst (main inps))) Release = 1"
    by (simp add: main_log [OF assms] z)
  show "count_list (log (fst (main inps))) DestroyAllWindows = 1"
    by (simp add: main_log [OF assms] z)
  show "count_list (log (fst (main inps))) Stop = 0"
    by (simp add: main_log [OF assms] z)
qed

lemma loop_body_read_failure: "cap_read f = Inr False \<Longrightarrow> loop_body f st = (st, Break)"
  by (simp add: loop_body_def)

lemma loop_body_quit:
  "cap_read f = Inr True \<Longrightarrow> detector f = Inr faces \<Longrightarrow> for_faces faces st = (st1, None) \<Longrightarrow>
   waitKey f = Inr k \<Longrightarrow> quit_key k \<Longrightarrow> loop_body f st = (imshow st1, Break)"
  by (simp add: loop_body_def)

text \<open>
  Claim C2 says that on every exit path the stop operation of the alarm and the release
  of the camera are each invoked exactly once. The \<^verbatim>\<open>finally\<close> block releases the
  camera and destroys the windows; the script has no call of the audio engine's stop.
  After a camera read failure the run has exited with no stop command.
\<close>

theorem shutdown_counterexample:
  "snd (main [read_failure]) = Exited
   \<and> count_list (log (fst (main [read_failure]))) Stop = 0
   \<and> count_list (log (fst (main [read_failure]))) Stop \<noteq> 1
   \<and> count_list (log (fst (main [read_failure]))) Release = 1"
  by (simp add: main_def loop_body_def read_failure_def finally_block_def cap_release_def
      destroyAllWindows_def init_state_def)

text \<open>
  Claim C2, amended. On every exit path of the loop (a camera read failure, a
  KeyboardInterrupt raised during an iteration, the quit key) the run exits, and the
  camera release and the destruction of the windows are each invoked exactly once, after
  the commands of the loop; no stop command is issued to the audio engine.
\<close>

theorem shutdown_commands:
  assumes "while_true pre init_state = (st, Continue)"
    and "cap_read f = Inr False
       \<or> (\<exists>st'. loop_body f st = (st', Raise KeyboardInterrupt))
       \<or> (\<exists>faces st1 k. cap_read f = Inr True \<and> detector f = Inr faces
             \<and> for_faces faces st = (st1, None) \<and> waitKey f = Inr k \<and> quit_key k)"
  shows "snd (main (pre @ f # rest)) = Exited
       \<and> count_list (log (fst (main (pre @ f # rest)))) Release = 1
       \<and> count_list (log (fst (main (pre @ f # rest)))) DestroyAllWindows = 1
       \<and> count_list (log (fst (main (pre @ f # rest)))) Stop = 0
       \<and> (\<exists>st'. log (fst (main (pre @ f # rest))) = log st' @ [Release, DestroyAllWindows]
             \<and> fst (loop_body f st) = st')"
proof -
  obtain st' fl where b: "loop_body f st = (st', fl)"
    and fl: "fl = Break \<or> fl = Raise KeyboardInterrupt"
    using assms(2) loop_body_read_failure loop_body_quit by blast
  then have ne: "fl \<noteq> Continue" by auto
  from main_exit [OF assms(1) b ne, of rest] fl
  have m: "main (pre @ f # rest) = (finally_block st', Exited)" by auto
  then have ex: "snd (main (pre @ f # rest)) = Exited" by simp
  then have nr: "snd (main (pre @ f # rest)) \<noteq> Running" by simp
  from m have "log (fst (main (pre @ f # rest))) = log st' @ [Release, DestroyAllWindows]"
    by (simp add: finally_block_def cap_release_def destroyAllWindows_def)
  with b have "\<exists>st'. log (fst (main (pre @ f # rest))) = log st' @ [Release, DestroyAllWindows]
             \<and> fst (loop_body f st) = st'" by simp
  with ex main_counts [OF nr] show ?thesis by blast
qed

text \<open>
  A read failure after a frame that started the alarm (the alarm is still Sounding at
  the exit), the quit key, and an interrupt during \<^verbatim>\<open>cap.read()\<close>.
\<close>

theorem shutdown_commands_witness:
  "main ([frame_of [Inr closed_face]] @ read_failure # [frame_of []])
     = (\<lparr>alarm = Sounding, log = [Print, Play, Imshow, Release, DestroyAllWindows]\<rparr>, Exited)
   \<and> snd (main ([] @ quit_frame # [])) = Exited
   \<and> count_list (log (fst (main ([] @ quit_frame # [])))) Release = 1
   \<and> count_list (log (fst (main ([] @ quit_frame # [])))) Stop = 0
   \<and> snd (main ([] @ \<lparr>cap_read = Inl KeyboardInterrupt, detector = Inr [], waitKey = Inr 0\<rparr> # []))
       = Exited"
proof -
  let ?st = "imshow (music_play (print_msg init_state))"
  let ?ki = "\<lparr>cap_read = Inl KeyboardInterrupt, detector = Inr [], waitKey = Inr 0\<rparr>"
  have b: "loop_body (frame_of [Inr closed_face]) init_state = (?st, Continue)"
    by (simp add: loop_body_def frame_of_def process_face_def closed_face_signal
        quit_key_examples)
  then have w: "while_true [frame_of [Inr closed_face]] init_state = (?st, Continue)" by simp
  have w0: "while_true [] init_state = (init_state, Continue)" by simp
  have h1: "cap_read read_failure = Inr False
       \<or> (\<exists>st'. loop_body read_failure ?st = (st', Raise KeyboardInterrupt))
       \<or> (\<exists>faces st1 k. cap_read read_failure = Inr True \<and> detector read_failure = Inr faces
             \<and> for_faces faces ?st = (st1, None) \<and> waitKey read_failure = Inr k \<and> quit_key k)"
    by (simp add: read_failure_def)
  have "cap_read quit_frame = Inr True \<and> detector quit_frame = Inr []
             \<and> for_faces [] init_state = (init_state, None) \<and> waitKey quit_frame = Inr 113
             \<and> quit_key 113"
    by (simp add: quit_frame_def quit_key_examples)
  then have h2: "cap_read quit_frame = Inr False
       \<or> (\<exists>st'. loop_body quit_frame init_state = (st', Raise KeyboardInterrupt))
       \<or> (\<exists>faces st1 k. cap_read quit_frame = Inr True \<and> detector quit_frame = Inr faces
             \<and> for_faces faces init_state = (st1, None) \<and> waitKey quit_frame = Inr k
             \<and> quit_key k)"
    by blast
  have "loop_body ?ki init_state = (init_state, Raise KeyboardInterrupt)"
    by (simp add: loop_body_def)
  then have h3: "cap_read ?ki = Inr False
       \<or> (\<exists>st'. loop_body ?ki init_state = (st', Raise KeyboardInterrupt))
       \<or> (\<exists>faces st1 k. cap_read ?ki = Inr True \<and> detector ?ki = Inr faces
             \<and> for_faces faces init_state = (st1, None) \<and> waitKey ?ki = Inr k \<and> quit_key k)"
    by blast
  note t1 = shutdown_commands [OF w h1, of "[frame_of []]"]
  note t2 = shutdown_commands [OF w0 h2, of "[]"]
  note t3 = shutdown_commands [OF w0 h3, of "[]"]
  have "fst (loop_body read_failure ?st) = ?st"
    by (simp add: loop_body_def read_failure_def)
  with t1 have l: "log (fst (main ([frame_of [Inr closed_face]] @ read_failure # [frame_of []])))
      = [Print, Play, Imshow, Release, DestroyAllWindows]"
    by (simp add: imshow_def music_play_def print_msg_def init_state_def)
  have a: "alarm (fst (main ([frame_of [Inr closed_face]] @ read_failure # [frame_of []])))
      = Sounding"
    using while_true_append [OF w, of "read_failure # [frame_of []]"]
    by (simp add: main_alarm loop_body_def read_failure_def imshow_def music_play_def)
  have "main ([frame_of [Inr closed_face]] @ read_failure # [frame_of []])
     = (\<lparr>alarm = Sounding, log = [Print, Play, Imshow, Release, DestroyAllWindows]\<rparr>, Exited)"
    using l a t1 by (simp add: prod_eq_iff)
  with t2 t3 show ?thesis by blast
qed

subsection \<open>Errors of the external services and of the extraction\<close>

lemma loop_body_face_raise:
  assumes "cap_read f = Inr True" "detector f = Inr (fs1 @ p # fs2)"
    and "for_faces fs1 st = (st1, None)" "process_face p st1 = (st1, Some e)"
  shows "loop_body f st = (st1, Raise e)"
proof -
  from for_faces_append [OF assms(3), of "p # fs2"] assms(4)
  have "for_faces (fs1 @ p # fs2) st = (st1, Some e)" by simp
  with assms(1,2) show ?thesis by (simp add: loop_body_def)
qed

lemma main_crash:
  assumes "while_true pre init_state = (st, Continue)" "loop_body f st = (st', Raise e)"
    and "e \<noteq> KeyboardInterrupt"
  shows "main (pre @ f # rest) = (finally_block st', Crashed e)"
  using main_exit [OF assms(1,2), of rest] assms(3) by simp

lemma finally_block_state:
  "alarm (finally_block st) = alarm st"
  "log (finally_block st) = log st @ [Release, DestroyAllWindows]"
  by (simp_all add: finally_block_def cap_release_def destroyAllWindows_def)

lemma drowsiness_signal_total:
  assumes "48 \<le> length lm"
  shows "\<exists>c. drowsiness_signal lm = Inr c"
proof -
  from extract_eyes_ok [OF assms] obtain a b where e: "extract_eyes lm = Inr (a, b)" by blast
  from extract_eyes_Inr_length [OF e] have "2 \<le> length a" "2 \<le> length b" by simp_all
  then have "\<exists>c. both_closed a b = Inr c"
    by (auto simp add: both_closed_def eyes_closed_total)
  with e show ?thesis by (simp add: drowsiness_signal_def)
qed

text \<open>
  Claim C3 says that a frame in which the detector or the predictor raises is skipped,
  and that the loop goes on with the next frame. The only handler of the script is
  \<^verbatim>\<open>except KeyboardInterrupt\<close> around the whole loop: when the detector fails on the
  first frame, the script ends with that error and the second frame, which would have
  started the alarm, is never processed.
\<close>

theorem service_error_counterexample:
  "main [detector_failure, frame_of [Inr closed_face]]
     = (\<lparr>alarm = Silent, log = [Release, DestroyAllWindows]\<rparr>, Crashed RuntimeError)
   \<and> main [frame_of [Inr closed_face]]
     = (\<lparr>alarm = Sounding, log = [Print, Play, Imshow]\<rparr>, Running)"
  by (simp add: main_def loop_body_def detector_failure_def frame_of_def process_face_def
      closed_face_signal quit_key_examples finally_block_def cap_release_def
      destroyAllWindows_def init_state_def imshow_def music_play_def print_msg_def)

text \<open>
  Claim C3, amended. When the face detector or the landmark predictor raises an error
  other than a KeyboardInterrupt during a frame, the error is not caught per frame: the
  loop ends at that frame, the \<^verbatim>\<open>finally\<close> block releases the camera and destroys the
  windows, and the script terminates with that error, whatever frames would follow. The
  failing call changes no state: the alarm state at the exit is the one reached before
  the call (the state before the frame when the detector fails, the state after the
  faces already processed when the predictor fails).
\<close>

theorem service_error_ends_loop:
  assumes "while_true pre init_state = (st, Continue)"
    and "cap_read f = Inr True"
    and "e \<noteq> KeyboardInterrupt"
    and "detector f = Inl e
       \<or> (\<exists>fs1 fs2 st1. detector f = Inr (fs1 @ Inl e # fs2) \<and> for_faces fs1 st = (st1, None))"
  shows "\<exists>st'. loop_body f st = (st', Raise e)
           \<and> main (pre @ f # rest) = (finally_block st', Crashed e)
           \<and> alarm (finally_block st') = alarm st'
           \<and> log (finally_block st') = log st' @ [Release, DestroyAllWindows]
           \<and> (detector f = Inl e \<longrightarrow> st' = st)
           \<and> (\<forall>fs1 fs2 st1. detector f = Inr (fs1 @ Inl e # fs2)
                  \<and> for_faces fs1 st = (st1, None) \<longrightarrow> st' = st1)"
proof -
  from assms(4) show ?thesis
  proof
    assume d: "detector f = Inl e"
    with assms(2) have b: "loop_body f st = (st, Raise e)" by (simp add: loop_body_def)
    from main_crash [OF assms(1) b assms(3), of rest] b d finally_block_state [of st]
    show ?thesis by simp
  next
    assume "\<exists>fs1 fs2 st1. detector f = Inr (fs1 @ Inl e # fs2) \<and> for_faces fs1 st = (st1, None)"
    then obtain fs1 fs2 st1 where d: "detector f = Inr (fs1 @ Inl e # fs2)"
      and ff: "for_faces fs1 st = (st1, None)" by blast
    have p: "process_face (Inl e) st1 = (st1, Some e)" by (simp add: process_face_def)
    from loop_body_face_raise [OF assms(2) d ff p] have b: "loop_body f st = (st1, Raise e)" .
    have u: "st1' = st1"
      if "detector f = Inr (fs1' @ Inl e # fs2') \<and> for_faces fs1' st = (st1', None)"
      for fs1' fs2' st1'
    proof -
      from that have p': "process_face (Inl e) st1' = (st1', Some e)"
        by (simp add: process_face_def)
      from that loop_body_face_raise [OF assms(2) _ _ p', of fs1' fs2' st]
      have "loop_body f st = (st1', Raise e)" by blast
      with b show ?thesis by simp
    qed
    from main_crash [OF assms(1) b assms(3), of rest] b d u finally_block_state [of st1]
    show ?thesis by auto
  qed
qed

text \<open>
  A detector failure on the first frame, and a predictor failure on the second face of
  the second frame.
\<close>

theorem service_error_ends_loop_witness:
  "main ([] @ detector_failure # [frame_of [Inr closed_face]])
     = (finally_block init_state, Crashed RuntimeError)
   \<and> main ([frame_of [Inr closed_face]]
              @ frame_of ([Inr closed_face] @ Inl RuntimeError # [Inr closed_face]) # [])
     = (finally_block
          (music_play (print_msg (imshow (music_play (print_msg init_state))))),
        Crashed RuntimeError)"
proof -
  let ?st = "imshow (music_play (print_msg init_state))"
  let ?f = "frame_of ([Inr closed_face] @ Inl RuntimeError # [Inr closed_face])"
  have w0: "while_true [] init_state = (init_state, Continue)" by simp
  have "loop_body (frame_of [Inr closed_face]) init_state = (?st, Continue)"
    by (simp add: loop_body_def frame_of_def process_face_def closed_face_signal
        quit_key_examples)
  then have w: "while_true [frame_of [Inr closed_face]] init_state = (?st, Continue)" by simp
  have r0: "cap_read detector_failure = Inr True" by (simp add: detector_failure_def)
  have h0: "detector detector_failure = Inl RuntimeError
       \<or> (\<exists>fs1 fs2 st1. detector detector_failure = Inr (fs1 @ Inl RuntimeError # fs2)
             \<and> for_faces fs1 init_state = (st1, None))"
    by (simp add: detector_failure_def)
  have ne: "RuntimeError \<noteq> KeyboardInterrupt" by simp
  have r1: "cap_read ?f = Inr True" by (simp add: frame_of_def)
  have ff: "for_faces [Inr closed_face] ?st = (music_play (print_msg ?st), None)"
    by (simp add: process_face_def closed_face_signal)
  have d1: "detector ?f = Inr ([Inr closed_face] @ Inl RuntimeError # [Inr closed_face])"
    by (simp add: frame_of_def)
  from d1 ff have h1: "detector ?f = Inl RuntimeError
       \<or> (\<exists>fs1 fs2 st1. detector ?f = Inr (fs1 @ Inl RuntimeError # fs2)
             \<and> for_faces fs1 ?st = (st1, None))"
    by blast
  from service_error_ends_loop [OF w0 r0 ne h0, of "[frame_of [Inr closed_face]]"]
  have a: "main ([] @ detector_failure # [frame_of [Inr closed_face]])
     = (finally_block init_state, Crashed RuntimeError)"
    by (auto simp add: detector_failure_def)
  from service_error_ends_loop [OF w r1 ne h1, of "[]"]
  obtain st' where m: "main ([frame_of [Inr closed_face]] @ ?f # []) = (finally_block st', Crashed RuntimeError)"
    and u: "\<forall>fs1 fs2 st1. detector ?f = Inr (fs1 @ Inl RuntimeError # fs2)
                  \<and> for_faces fs1 ?st = (st1, None) \<longrightarrow> st' = st1"
    by blast
  from u d1 ff have "st' = music_play (print_msg ?st)" by blast
  with m have b: "main ([frame_of [Inr closed_face]] @ ?f # [])
     = (finally_block (music_play (print_msg ?st)), Crashed RuntimeError)"
    by simp
  from a b show ?thesis by blast
qed

text \<open>
  Claim C9 says that a landmark set of fewer than 68 points makes the extraction fail
  and that the face is then skipped. A set of 48 points yields both contours, and a set
  of 40 points ends the script with an IndexError before the next frame is processed.
\<close>

theorem short_landmarks_counterexample:
  "length face48 = 48
   \<and> extract_eyes face48
       = Inr ([(0, 0), (0, 0), (0, 0), (0, 0), (0, 0), (0, 0)],
              [(0, 0), (0, 0), (0, 0), (0, 0), (0, 0), (0, 0)])
   \<and> length face40 = 40
   \<and> main [frame_of [Inr face40], frame_of [Inr closed_face]]
       = (\<lparr>alarm = Silent, log = [Release, DestroyAllWindows]\<rparr>, Crashed IndexError)"
proof -
  have a: "extract_eyes face48
       = Inr ([(0, 0), (0, 0), (0, 0), (0, 0), (0, 0), (0, 0)],
              [(0, 0), (0, 0), (0, 0), (0, 0), (0, 0), (0, 0)])"
    by (simp add: extract_eyes_ok face48_def)
  have "extract_eyes face40 = Inl IndexError"
    by (simp add: extract_eyes_fail face40_def)
  then have "main [frame_of [Inr face40], frame_of [Inr closed_face]]
       = (\<lparr>alarm = Silent, log = [Release, DestroyAllWindows]\<rparr>, Crashed IndexError)"
    by (simp add: main_def loop_body_def frame_of_def process_face_def drowsiness_signal_def
        finally_block_def cap_release_def destroyAllWindows_def init_state_def)
  with a show ?thesis by (simp add: face48_def face40_def)
qed

text \<open>
  Claim C9, amended. The extraction never checks for 68 points. For a landmark set of
  fewer than 48 points it raises the IndexError of \<^verbatim>\<open>part\<close>, which is not caught: the
  face is not skipped, the loop ends at that frame and the script terminates with the
  IndexError after the \<^verbatim>\<open>finally\<close> block. For a landmark set of at least 48 points,
  also one of fewer than 68, it returns the two contours and the face is processed
  without an error.
\<close>

theorem short_landmarks:
  "(length lm < 48 \<longrightarrow>
      extract_eyes lm = Inl IndexError
    \<and> process_face (Inr lm) st = (st, Some IndexError)
    \<and> (\<forall>pre f fs1 fs2 st0 st1 rest.
          while_true pre init_state = (st0, Continue) \<and> cap_read f = Inr True
          \<and> detector f = Inr (fs1 @ Inr lm # fs2) \<and> for_faces fs1 st0 = (st1, None)
          \<longrightarrow> main (pre @ f # rest) = (finally_block st1, Crashed IndexError)))
   \<and> (48 \<le> length lm \<longrightarrow>
        extract_eyes lm
          = Inr (map (\<lambda>i. (pt_x (lm ! i), pt_y (lm ! i))) [36..<42],
                 map (\<lambda>i. (pt_x (lm ! i), pt_y (lm ! i))) [42..<48])
      \<and> snd (process_face (Inr lm) st) = None)"
proof (intro conjI impI allI)
  assume s: "length lm < 48"
  from extract_eyes_fail [OF s] show e: "extract_eyes lm = Inl IndexError" .
  then show p: "process_face (Inr lm) st = (st, Some IndexError)"
    by (simp add: process_face_def drowsiness_signal_def)
next
  fix pre rest :: "iteration list" and f :: iteration
    and fs1 fs2 :: "(exn + landmarks) list" and st0 st1 :: state
  assume s: "length lm < 48"
    and h: "while_true pre init_state = (st0, Continue) \<and> cap_read f = Inr True
          \<and> detector f = Inr (fs1 @ Inr lm # fs2) \<and> for_faces fs1 st0 = (st1, None)"
  from extract_eyes_fail [OF s] have p: "process_face (Inr lm) st1 = (st1, Some IndexError)"
    by (simp add: process_face_def drowsiness_signal_def)
  from h loop_body_face_raise [OF _ _ _ p, of f fs1 fs2 st0]
  have b: "loop_body f st0 = (st1, Raise IndexError)" by blast
  from h main_crash [OF _ b, of pre rest]
  show "main (pre @ f # rest) = (finally_block st1, Crashed IndexError)" by simp
next
  assume l: "48 \<le> length lm"
  from extract_eyes_ok [OF l]
  show e: "extract_eyes lm
          = Inr (map (\<lambda>i. (pt_x (lm ! i), pt_y (lm ! i))) [36..<42],
                 map (\<lambda>i. (pt_x (lm ! i), pt_y (lm ! i))) [42..<48])"
    by (simp only: upt_36 upt_42)
  from drowsiness_signal_total [OF l] obtain c where "drowsiness_signal lm = Inr c" by blast
  then show "snd (process_face (Inr lm) st) = None" by (simp add: process_face_def)
qed

text \<open>
  A landmark set of 40 points and one of 48 points.
\<close>

theorem short_landmarks_witness:
  "length face40 < 48
   \<and> extract_eyes face40 = Inl IndexError
   \<and> process_face (Inr face40) init_state = (init_state, Some IndexError)
   \<and> main ([] @ frame_of ([] @ Inr face40 # []) # [frame_of [Inr closed_face]])
       = (finally_block init_state, Crashed IndexError)
   \<and> 48 \<le> length face48
   \<and> extract_eyes face48
       = Inr ([(0, 0), (0, 0), (0, 0), (0, 0), (0, 0), (0, 0)],
              [(0, 0), (0, 0), (0, 0), (0, 0), (0, 0), (0, 0)])
   \<and> snd (process_face (Inr face48) init_state) = None"
proof -
  have s: "length face40 < 48" by (simp add: face40_def)
  have l: "48 \<le> length face48" by (simp add: face48_def)
  note t40 = short_landmarks [of face40 init_state]
  note t48 = short_landmarks [of face48 init_state]
  from t40 s have e: "extract_eyes face40 = Inl IndexError"
    and p: "process_face (Inr face40) init_state = (init_state, Some IndexError)"
    by blast+
  have h: "while_true [] init_state = (init_state, Continue)
          \<and> cap_read (frame_of ([] @ Inr face40 # [])) = Inr True
          \<and> detector (frame_of ([] @ Inr face40 # [])) = Inr ([] @ Inr face40 # [])
          \<and> for_faces [] init_state = (init_state, None)"
    by (simp add: frame_of_def)
  from t40 s h have m: "main ([] @ frame_of ([] @ Inr face40 # []) # [frame_of [Inr closed_face]])
       = (finally_block init_state, Crashed IndexError)"
    by blast
  from t48 l have "extract_eyes face48
          = Inr (map (\<lambda>i. (pt_x (face48 ! i), pt_y (face48 ! i))) [36..<42],
                 map (\<lambda>i. (pt_x (face48 ! i), pt_y (face48 ! i))) [42..<48])"
    and n: "snd (process_face (Inr face48) init_state) = None"
    by blast+
  then have x: "extract_eyes face48
       = Inr ([(0, 0), (0, 0), (0, 0), (0, 0), (0, 0), (0, 0)],
              [(0, 0), (0, 0), (0, 0), (0, 0), (0, 0), (0, 0)])"
    by (simp add: upt_36 upt_42 face48_def)
  from s e p m l x n show ?thesis by blast
qed

end
